theory Spec2Isabelle
  imports Complex_Main "HOL-Library.Multiset" "HOL-Library.Product_Lexorder"
begin

section \<open>Visitor management backend: values, store and clock\<close>

text \<open>
  The development embeds the request handlers of \<^verbatim>\<open>vms-backend/server.js\<close> and the
  timestamp normalisation of \<^verbatim>\<open>loadVisitors\<close> in \<^verbatim>\<open>src/App.jsx\<close>.

  A JavaScript value as it arrives in a JSON or multipart request body. \<open>JNum\<close> is a number
  whose value is an integer, \<open>JFrac\<close> a number whose value is not; arrays and objects are
  left out. A string is the list of the bytes of its UTF-8 encoding.
\<close>

datatype jsval = JUndefined | JNull | JBool bool | JNum int | JFrac rat | JStr string

text \<open>JavaScript truthiness, as used by \<^verbatim>\<open>!name\<close>, \<^verbatim>\<open>checkin_time ? a : b\<close> and \<^verbatim>\<open>x || y\<close>.\<close>

fun truthy :: "jsval \<Rightarrow> bool" where
  "truthy JUndefined = False"
| "truthy JNull = False"
| "truthy (JBool b) = b"
| "truthy (JNum n) = (n \<noteq> 0)"
| "truthy (JFrac q) = (q \<noteq> 0)"
| "truthy (JStr s) = (s \<noteq> [])"

text \<open>\<^verbatim>\<open>a || b\<close>\<close>

definition js_or :: "jsval \<Rightarrow> jsval \<Rightarrow> jsval" where
  "js_or a b = (if truthy a then a else b)"

subsection \<open>Numbers of the runtime\<close>

text \<open>
  What \<^verbatim>\<open>parseInt\<close> returns when it is not \<^verbatim>\<open>NaN\<close>, and what a numeric column of the
  table holds: an integer or an infinity.
\<close>

datatype extint = NegInf | Fin int | PosInf

fun le_ext :: "extint \<Rightarrow> extint \<Rightarrow> bool" where
  "le_ext NegInf b = True"
| "le_ext (Fin a) NegInf = False"
| "le_ext (Fin a) (Fin b) = (a \<le> b)"
| "le_ext (Fin a) PosInf = True"
| "le_ext PosInf PosInf = True"
| "le_ext PosInf b = False"

text \<open>A key that sorts such numbers in descending order.\<close>

fun desc_key :: "extint \<Rightarrow> int \<times> int" where
  "desc_key PosInf = (- 1, 0)"
| "desc_key (Fin a) = (0, - a)"
| "desc_key NegInf = (1, 0)"

text \<open>The length of the binary numeral of a natural number.\<close>

fun bitlen :: "nat \<Rightarrow> nat" where
  "bitlen n = (if n = 0 then 0 else Suc (bitlen (n div 2)))"

declare bitlen.simps [simp del]

text \<open>
  The Number value of a natural number below \<open>2^1024\<close>: the nearest number with 53
  significant bits, the even one of two that are equally near.
\<close>

definition round_double :: "nat \<Rightarrow> nat" where
  "round_double v =
     (if v < 2 ^ 53 then v
      else (let e = bitlen v - 53; q = v div 2 ^ e; r = v mod 2 ^ e; h = 2 ^ (e - 1)
            in if h < r \<or> (r = h \<and> odd q) then (q + 1) * 2 ^ e else q * 2 ^ e))"

subsection \<open>Decimal strings\<close>

definition digit_char :: "nat \<Rightarrow> char" where
  "digit_char n = ''0123456789'' ! (n mod 10)"

fun show_nat :: "nat \<Rightarrow> string" where
  "show_nat n = (if n < 10 then [digit_char n] else show_nat (n div 10) @ [digit_char (n mod 10)])"

declare show_nat.simps [simp del]

text \<open>\<^verbatim>\<open>String(n)\<close> for an integer \<open>n\<close> of magnitude below \<open>10^21\<close>.\<close>

definition show_int :: "int \<Rightarrow> string" where
  "show_int n = (if n < 0 then CHR ''-'' # show_nat (nat (- n)) else show_nat (nat n))"

definition is_digit :: "char \<Rightarrow> bool" where
  "is_digit c = (c \<in> set ''0123456789'')"

definition digit_val :: "char \<Rightarrow> nat" where
  "digit_val c = of_char c - 48"

definition digits_value :: "string \<Rightarrow> nat" where
  "digits_value ds = foldl (\<lambda>a c. 10 * a + digit_val c) 0 ds"

subsection \<open>Clock, tokens and errors\<close>

text \<open>\<^verbatim>\<open>Math.floor(Date.now() / 1000)\<close>, with \<^verbatim>\<open>Date.now()\<close> in milliseconds.\<close>

definition epoch_seconds :: "int \<Rightarrow> int" where
  "epoch_seconds now_ms = now_ms div 1000"

text \<open>
  The responses of the handlers: 400 \<^verbatim>\<open>name required\<close> is \<open>ValidationError\<close>, 401
  (\<^verbatim>\<open>Missing token\<close>, \<^verbatim>\<open>Invalid token\<close>) is \<open>AuthError\<close>, 500 \<^verbatim>\<open>internal error\<close> is
  \<open>InternalError\<close>. No handler of the source answers 404; \<open>NotFoundError\<close> is there to
  say so.
\<close>

datatype error = ValidationError | AuthError | NotFoundError | InternalError

text \<open>
  What a handler reads from its surroundings: the clock (\<^verbatim>\<open>Date.now()\<close>, milliseconds),
  the next value of \<^verbatim>\<open>uuidv4()\<close>, \<^verbatim>\<open>jwt.verify(token, JWT_SECRET)\<close> (\<open>None\<close> when it
  throws, otherwise the \<^verbatim>\<open>id\<close> of the decoded payload), whether the multipart upload
  and the write of an inline image succeed, and the name of the image file.

  Three more are the parts of the runtime and of the database that the model does not
  compute: \<open>number_string\<close> is \<^verbatim>\<open>String(x)\<close> for a number that is not an integer or whose
  magnitude is \<open>10^21\<close> or more (there the decimal string has a fraction or an exponent);
  \<open>long_parseInt\<close> is what \<^verbatim>\<open>parseInt\<close> makes of a sign and a run of decimal digits with
  more than 20 significant digits, where the language lets an implementation replace the
  later digits by zeros; \<open>user_exists\<close> says whether a row of \<^verbatim>\<open>users\<close> has the given id;
  \<open>local_tza t u\<close> is the offset of the server's time zone in milliseconds, at the time
  value \<open>t\<close> read as UTC when \<open>u\<close> holds and as local time otherwise.
\<close>

record env =
  now_ms :: int
  uuid :: string
  jwt_verify :: "string \<Rightarrow> jsval option"
  multer_ok :: bool
  write_ok :: bool
  file_uuid :: string
  number_string :: "rat \<Rightarrow> string"
  long_parseInt :: "bool \<Rightarrow> string \<Rightarrow> extint"
  user_exists :: "jsval \<Rightarrow> bool"
  local_tza :: "int \<Rightarrow> bool \<Rightarrow> int"

text \<open>\<^verbatim>\<open>String(v)\<close>\<close>

fun to_string :: "env \<Rightarrow> jsval \<Rightarrow> string" where
  "to_string e JUndefined = ''undefined''"
| "to_string e JNull = ''null''"
| "to_string e (JBool b) = (if b then ''true'' else ''false'')"
| "to_string e (JNum n) = (if \<bar>n\<bar> < 10 ^ 21 then show_int n else number_string e (of_int n))"
| "to_string e (JFrac q) = number_string e q"
| "to_string e (JStr s) = s"

subsection \<open>\<^verbatim>\<open>parseInt(s, 10)\<close>\<close>

text \<open>TAB, LF, VT, FF, CR and SP.\<close>

definition ascii_ws :: "char \<Rightarrow> bool" where
  "ascii_ws c = (c \<in> {CHR 0x09, CHR 0x0A, CHR 0x0B, CHR 0x0C, CHR 0x0D, CHR 0x20})"

text \<open>
  The number of bytes of the white space or line terminator at the head of a string, 0 when
  there is none. Beyond the six of ASCII these are, in UTF-8, U+00A0 (C2 A0), U+1680
  (E1 9A 80), U+2000 to U+200A (E2 80 80 to E2 80 8A), U+2028, U+2029 and U+202F (E2 80 A8,
  A9, AF), U+205F (E2 81 9F), U+3000 (E3 80 80) and U+FEFF (EF BB BF).
\<close>

definition ws_len :: "string \<Rightarrow> nat" where
  "ws_len s =
     (case s of
        [] \<Rightarrow> 0
      | c # _ \<Rightarrow>
          if ascii_ws c then 1
          else if take 2 s = [CHR 0xC2, CHR 0xA0] then 2
          else if take 3 s = [CHR 0xE1, CHR 0x9A, CHR 0x80] then 3
          else if take 2 s = [CHR 0xE2, CHR 0x80]
                  \<and> (case drop 2 s of
                        [] \<Rightarrow> False
                      | d # _ \<Rightarrow> (128 \<le> (of_char d :: nat) \<and> (of_char d :: nat) \<le> 138)
                                  \<or> d \<in> {CHR 0xA8, CHR 0xA9, CHR 0xAF})
               then 3
          else if take 3 s = [CHR 0xE2, CHR 0x81, CHR 0x9F] then 3
          else if take 3 s = [CHR 0xE3, CHR 0x80, CHR 0x80] then 3
          else if take 3 s = [CHR 0xEF, CHR 0xBB, CHR 0xBF] then 3
          else 0)"

text \<open>The string without its leading white space.\<close>

function skip_ws :: "string \<Rightarrow> string" where
  "skip_ws s = (if ws_len s = 0 then s else skip_ws (drop (ws_len s) s))"
  by pat_completeness auto
termination
proof (relation "measure length")
  show "wf (measure length)" by simp
next
  fix s :: string
  assume "ws_len s \<noteq> 0"
  then have "s \<noteq> []" by (auto simp: ws_len_def)
  with \<open>ws_len s \<noteq> 0\<close> show "(drop (ws_len s) s, s) \<in> measure length" by simp
qed

declare skip_ws.simps [simp del]

text \<open>
  \<^verbatim>\<open>parseInt(s, 10)\<close>: leading white space is skipped, one sign is read, then the longest
  run of decimal digits; \<open>None\<close> is \<^verbatim>\<open>NaN\<close> (no digit). The result is the Number value
  of the integer the digits denote. With more than 20 significant digits it is what the
  implementation makes of them.
\<close>

definition parseInt :: "env \<Rightarrow> string \<Rightarrow> extint option" where
  "parseInt e s =
     (let s1 = skip_ws s;
          neg = (case s1 of c # _ \<Rightarrow> c = CHR ''-'' | [] \<Rightarrow> False);
          s2 = (case s1 of c # r \<Rightarrow> (if c = CHR ''-'' \<or> c = CHR ''+'' then r else s1) | [] \<Rightarrow> s1);
          ds = takeWhile is_digit s2
      in if ds = [] then None
         else if length (dropWhile (\<lambda>c. c = CHR ''0'') ds) \<le> 20
         then Some (Fin ((if neg then - 1 else 1) * int (round_double (digits_value ds))))
         else Some (long_parseInt e neg ds))"

text \<open>\<^verbatim>\<open>s.startsWith(p)\<close>\<close>

definition startsWith :: "string \<Rightarrow> string \<Rightarrow> bool" where
  "startsWith s p = (take (length p) s = p)"

text \<open>
  \<^verbatim>\<open>authMiddleware\<close>: the request passes when the Authorization header starts with
  \<^verbatim>\<open>Bearer \<close> and the rest verifies.
\<close>

definition authMiddleware :: "env \<Rightarrow> string option \<Rightarrow> error + unit" where
  "authMiddleware e auth =
     (case auth of
        None \<Rightarrow> Inl AuthError
      | Some a \<Rightarrow>
          if a \<noteq> [] \<and> startsWith a ''Bearer ''
          then (case jwt_verify e (drop 7 a) of
                  None \<Rightarrow> Inl AuthError
                | Some _ \<Rightarrow> Inr ())
          else Inl AuthError)"

subsection \<open>The visitors table\<close>

text \<open>
  A row of \<^verbatim>\<open>visitors\<close> (\<^verbatim>\<open>migrations.sql\<close>): \<^verbatim>\<open>id TEXT PRIMARY KEY\<close>,
  \<^verbatim>\<open>checkin_time INTEGER NOT NULL\<close>, \<^verbatim>\<open>checkout_time INTEGER\<close> (\<open>None\<close> is NULL). The
  record holds, for the other columns, the values that the INSERT binds, as they are bound
  (before the column's type affinity converts them). The table is the list of its rows in
  insertion order.
\<close>

record visitor =
  vid :: string
  name :: jsval
  phone :: jsval
  address :: jsval
  purpose :: jsval
  company :: jsval
  personToMeet :: jsval
  photo :: string
  checkin_time :: extint
  checkout_time :: "int option"
  created_by :: jsval

type_synonym store = "visitor list"

text \<open>\<^verbatim>\<open>UPDATE visitors SET checkout_time = ? WHERE id = ?\<close>\<close>

definition update_checkout :: "int \<Rightarrow> string \<Rightarrow> store \<Rightarrow> store" where
  "update_checkout t i s = map (\<lambda>r. if vid r = i then r\<lparr>checkout_time := Some t\<rparr> else r) s"

text \<open>
  \<^verbatim>\<open>POST /visitors/:id/checkout\<close>: behind \<^verbatim>\<open>authMiddleware\<close>; the UPDATE runs and the
  answer is \<^verbatim>\<open>{id, checkout_time}\<close>, whatever rows the UPDATE matched.
\<close>

definition check_out :: "env \<Rightarrow> string option \<Rightarrow> string \<Rightarrow> store \<Rightarrow> (error + string \<times> int) \<times> store" where
  "check_out e auth i s =
     (case authMiddleware e auth of
        Inl err \<Rightarrow> (Inl err, s)
      | Inr _ \<Rightarrow>
          (let t = epoch_seconds (now_ms e)
           in (Inr (i, t), update_checkout t i s)))"

subsection \<open>Photo handling\<close>

definition is_alpha :: "char \<Rightarrow> bool" where
  "is_alpha c = (c \<in> set ''abcdefghijklmnopqrstuvwxyzABCDEFGHIJKLMNOPQRSTUVWXYZ'')"

text \<open>
  The match of \<^verbatim>\<open>/^data:(image\/[a-zA-Z]+);base64,(.+)$/\<close>: the mime type when the string
  matches. The payload is not empty and holds no line break.
\<close>

definition match_data_url :: "string \<Rightarrow> string option" where
  "match_data_url s =
     (if \<not> startsWith s ''data:image/'' then None
      else
        (let rest = drop 11 s;
             letters = takeWhile is_alpha rest;
             after = dropWhile is_alpha rest;
             payload = drop 8 after
         in if letters \<noteq> [] \<and> startsWith after '';base64,'' \<and> payload \<noteq> []
               \<and> list_all (\<lambda>c. c \<noteq> CHR 0x0A \<and> c \<noteq> CHR 0x0D) payload
            then Some (''image/'' @ letters) else None))"

text \<open>
  \<^verbatim>\<open>saveBase64Image\<close>: \<open>Inr None\<close> is the \<^verbatim>\<open>null\<close> it returns, \<open>Inl\<close> the exception of a
  failed write.
\<close>

definition saveBase64Image :: "env \<Rightarrow> jsval \<Rightarrow> error + string option" where
  "saveBase64Image e dataUrl =
     (case dataUrl of
        JStr s \<Rightarrow>
          (if s = [] then Inr None
           else (case match_data_url s of
                   None \<Rightarrow> Inr None
                 | Some mime \<Rightarrow>
                     (let ext = (if mime = ''image/png'' then ''.png''
                                 else if mime = ''image/jpeg'' \<or> mime = ''image/jpg'' then ''.jpg''
                                 else if mime = ''image/webp'' then ''.webp''
                                 else ''.jpg'');
                          filename = file_uuid e @ ext
                      in if write_ok e then Inr (Some (''/uploads/'' @ filename))
                         else Inl InternalError)))
      | _ \<Rightarrow> Inr None)"

subsection \<open>Check-in\<close>

text \<open>
  A request to \<^verbatim>\<open>POST /visitors\<close>: whether the content type starts with
  \<^verbatim>\<open>multipart/\<close>, the fields of \<^verbatim>\<open>req.body\<close> (\<open>JUndefined\<close> when absent),
  \<^verbatim>\<open>req.file.filename\<close> as multer leaves it, the Authorization header, and
  \<^verbatim>\<open>protocol://host\<close>.
\<close>

record request =
  multipart :: bool
  body_name :: jsval
  body_phone :: jsval
  body_address :: jsval
  body_purpose :: jsval
  body_company :: jsval
  body_personToMeet :: jsval
  body_checkin_time :: jsval
  body_photo :: jsval
  file_filename :: "string option"
  authorization :: "string option"
  base :: string

text \<open>The object of \<^verbatim>\<open>res.json\<close> after a creation.\<close>

record created =
  res_id :: string
  res_name :: jsval
  res_phone :: jsval
  res_address :: jsval
  res_purpose :: jsval
  res_company :: jsval
  res_personToMeet :: jsval
  res_photo :: "string option"
  res_checkin_time :: "extint option"

text \<open>The inline image of a creation: a string that starts with \<^verbatim>\<open>data:image\<close> is saved.\<close>

definition inline_photo :: "env \<Rightarrow> request \<Rightarrow> error + string option" where
  "inline_photo e r =
     (case body_photo r of
        JStr p \<Rightarrow> (if startsWith p ''data:image'' then saveBase64Image e (JStr p) else Inr None)
      | _ \<Rightarrow> Inr None)"

text \<open>The photo of a creation: the uploaded file first, then the inline image.\<close>

definition photo_url :: "env \<Rightarrow> request \<Rightarrow> error + string option" where
  "photo_url e r =
     (case (if multipart r then file_filename r else None) of
        Some f \<Rightarrow> (if f \<noteq> [] then Inr (Some (''/uploads/'' @ f)) else inline_photo e r)
      | None \<Rightarrow> inline_photo e r)"

text \<open>
  \<^verbatim>\<open>created_by\<close>: the id of the decoded token when the header carries a bearer token that
  verifies; the \<^verbatim>\<open>catch\<close> leaves it \<^verbatim>\<open>null\<close> otherwise.
\<close>

definition created_by_of :: "env \<Rightarrow> string option \<Rightarrow> jsval" where
  "created_by_of e auth =
     (case auth of
        None \<Rightarrow> JNull
      | Some a \<Rightarrow>
          if a \<noteq> [] \<and> startsWith a ''Bearer ''
          then (case jwt_verify e (drop 7 a) of None \<Rightarrow> JNull | Some i \<Rightarrow> i)
          else JNull)"

text \<open>
  \<^verbatim>\<open>checkin_time ? parseInt(checkin_time, 10) : Math.floor(Date.now() / 1000)\<close>;
  \<open>None\<close> is \<^verbatim>\<open>NaN\<close>.
\<close>

definition checkin_of :: "env \<Rightarrow> jsval \<Rightarrow> extint option" where
  "checkin_of e ct =
     (if truthy ct then parseInt e (to_string e ct) else Some (Fin (epoch_seconds (now_ms e))))"

text \<open>
  \<^verbatim>\<open>INSERT INTO visitors (...) VALUES (...)\<close>, with \<^verbatim>\<open>checkout_time\<close> not among the
  columns, so NULL. The statement fails (\<open>None\<close>) on a \<^verbatim>\<open>NaN\<close> check-in time, which
  SQLite binds as NULL (\<^verbatim>\<open>checkin_time INTEGER NOT NULL\<close>), on a row whose id is in the
  table (PRIMARY KEY), and on a \<^verbatim>\<open>created_by\<close> that is not NULL and is the id of no row of
  \<^verbatim>\<open>users\<close> (FOREIGN KEY, with \<^verbatim>\<open>PRAGMA foreign_keys = ON\<close>).
\<close>

definition insert_visitor ::
  "env \<Rightarrow> string \<Rightarrow> jsval \<Rightarrow> jsval \<Rightarrow> jsval \<Rightarrow> jsval \<Rightarrow> jsval \<Rightarrow> jsval \<Rightarrow> string \<Rightarrow> extint option
     \<Rightarrow> jsval \<Rightarrow> store \<Rightarrow> store option" where
  "insert_visitor e i n ph ad pu co pm pho ck cb s =
     (case ck of
        None \<Rightarrow> None
      | Some c \<Rightarrow>
          if i \<in> vid ` set s then None
          else if cb = JNull \<or> cb = JUndefined \<or> user_exists e cb
          then Some (s @ [\<lparr>vid = i, name = n, phone = ph, address = ad, purpose = pu, company = co,
                           personToMeet = pm, photo = pho, checkin_time = c, checkout_time = None,
                           created_by = cb\<rparr>])
          else None)"

text \<open>\<^verbatim>\<open>POST /visitors\<close>\<close>

definition check_in :: "env \<Rightarrow> request \<Rightarrow> store \<Rightarrow> (error + created) \<times> store" where
  "check_in e r s =
     (if multipart r \<and> \<not> multer_ok e then (Inl InternalError, s)
      else if \<not> truthy (body_name r) then (Inl ValidationError, s)
      else
        (case photo_url e r of
           Inl err \<Rightarrow> (Inl err, s)
         | Inr photoUrl \<Rightarrow>
             (let i = uuid e;
                  checkin = checkin_of e (body_checkin_time r);
                  cb = created_by_of e (authorization r)
              in (case insert_visitor e i (body_name r)
                         (js_or (body_phone r) (JStr [])) (js_or (body_address r) (JStr []))
                         (js_or (body_purpose r) (JStr [])) (js_or (body_company r) (JStr []))
                         (js_or (body_personToMeet r) (JStr []))
                         (case photoUrl of None \<Rightarrow> [] | Some p \<Rightarrow> p) checkin cb s of
                    None \<Rightarrow> (Inl InternalError, s)
                  | Some s' \<Rightarrow>
                      (let photoAbsolute =
                             (case photoUrl of
                                None \<Rightarrow> None
                              | Some p \<Rightarrow>
                                  if p = [] then None
                                  else if startsWith p ''http'' then Some p else Some (base r @ p))
                       in (Inr \<lparr>res_id = i, res_name = body_name r, res_phone = body_phone r,
                                res_address = body_address r, res_purpose = body_purpose r,
                                res_company = body_company r, res_personToMeet = body_personToMeet r,
                                res_photo = photoAbsolute, res_checkin_time = checkin\<rparr>, s'))))))"

subsection \<open>Listing\<close>

text \<open>\<^verbatim>\<open>req.query.x || d\<close> for a query parameter that is absent or a string.\<close>

definition query_or :: "string option \<Rightarrow> string \<Rightarrow> string" where
  "query_or q d = (case q of None \<Rightarrow> d | Some v \<Rightarrow> if v = [] then d else v)"

text \<open>
  \<^verbatim>\<open>checkin_time BETWEEN ? AND ?\<close>; a \<^verbatim>\<open>NaN\<close> bound is bound as NULL and the comparison
  holds of no row.
\<close>

definition between :: "extint option \<Rightarrow> extint option \<Rightarrow> visitor \<Rightarrow> bool" where
  "between lo hi r =
     (case (lo, hi) of
        (Some a, Some b) \<Rightarrow> le_ext a (checkin_time r) \<and> le_ext (checkin_time r) b
      | _ \<Rightarrow> False)"

text \<open>
  \<^verbatim>\<open>SELECT * FROM visitors WHERE checkin_time BETWEEN ? AND ? ORDER BY checkin_time DESC\<close>.
  SQL leaves the order of equal keys open; the model keeps them in table order.
\<close>

definition select_between :: "extint option \<Rightarrow> extint option \<Rightarrow> store \<Rightarrow> visitor list" where
  "select_between lo hi s = sort_key (\<lambda>r. desc_key (checkin_time r)) (filter (between lo hi) s)"

text \<open>\<^verbatim>\<open>SELECT COUNT(*) as c FROM visitors WHERE checkin_time BETWEEN ? AND ?\<close>\<close>

definition count_between :: "extint option \<Rightarrow> extint option \<Rightarrow> store \<Rightarrow> nat" where
  "count_between lo hi s = length (filter (between lo hi) s)"

text \<open>The photo of a listed row: \<^verbatim>\<open>null\<close> when empty, absolute otherwise.\<close>

definition listed_photo :: "string \<Rightarrow> visitor \<Rightarrow> string option" where
  "listed_photo b r =
     (if photo r = [] then None
      else if \<not> startsWith (photo r) ''http'' then Some (b @ photo r) else Some (photo r))"

text \<open>
  \<^verbatim>\<open>GET /visitors\<close>: each row comes with the photo that replaces its \<^verbatim>\<open>photo\<close> field.
\<close>

definition list_visitors ::
  "env \<Rightarrow> string option \<Rightarrow> string option \<Rightarrow> string option \<Rightarrow> string \<Rightarrow> store
     \<Rightarrow> error + (visitor \<times> string option) list" where
  "list_visitors e auth qfrom qto b s =
     (case authMiddleware e auth of
        Inl err \<Rightarrow> Inl err
      | Inr _ \<Rightarrow>
          (let from = parseInt e (query_or qfrom ''0'');
               to = parseInt e (query_or qto (show_int (epoch_seconds (now_ms e))));
               rows = select_between from to s
           in Inr (map (\<lambda>r. (r, listed_photo b r)) rows)))"

subsection \<open>Timestamp normalisation of the client\<close>

text \<open>
  \<^verbatim>\<open>loadVisitors\<close> maps every listed item. \<open>dp\<close> is \<^verbatim>\<open>new Date(s).getTime()\<close> on a string,
  \<open>None\<close> for \<^verbatim>\<open>NaN\<close>. The result for \<^verbatim>\<open>checkin_time\<close> is \<^verbatim>\<open>ck || 0\<close>. A number that is
  not an integer takes the branch of the numbers as well.
\<close>

definition normalize_checkin :: "(string \<Rightarrow> int option) \<Rightarrow> jsval \<Rightarrow> jsval" where
  "normalize_checkin dp ck0 =
     (let ck = (case ck0 of
                  JStr s \<Rightarrow> (case dp s of None \<Rightarrow> None | Some ms \<Rightarrow> Some (JNum (ms div 1000)))
                | JNum n \<Rightarrow> (if n > 10000000000 then Some (JNum (n div 1000)) else Some (JNum n))
                | JFrac q \<Rightarrow> (if q > 10000000000 then Some (JNum \<lfloor>q / 1000\<rfloor>) else Some (JFrac q))
                | v \<Rightarrow> Some v)
      in (case ck of None \<Rightarrow> JNum 0 | Some v \<Rightarrow> js_or v (JNum 0)))"


subsection \<open>Histories of writes\<close>

text \<open>
  The two handlers that write to the table; the \<^verbatim>\<open>GET\<close> handlers only run SELECTs. A
  history is a list of such requests, each with the surroundings it ran in.
\<close>

datatype op = CheckIn env request | CheckOut env "string option" string

fun step :: "op \<Rightarrow> store \<Rightarrow> store" where
  "step (CheckIn e r) s = snd (check_in e r s)"
| "step (CheckOut e auth i) s = snd (check_out e auth i s)"

fun run :: "op list \<Rightarrow> store \<Rightarrow> store" where
  "run [] s = s"
| "run (x # xs) s = run xs (step x s)"

text \<open>The request is a check-out of the id.\<close>

fun checks_out :: "string \<Rightarrow> op \<Rightarrow> bool" where
  "checks_out i (CheckIn e r) = False"
| "checks_out i (CheckOut e auth j) = (j = i)"

subsection \<open>Sample data\<close>

definition env0 :: env where
  "env0 = \<lparr>now_ms = 1700000000123, uuid = ''id-2'',
            jwt_verify = (\<lambda>t. if t = ''good'' then Some (JStr ''user-1'') else None),
            multer_ok = True, write_ok = True, file_uuid = ''f-1'',
            number_string = (\<lambda>q. if q = 17000000005 / 10 then ''1700000000.5'' else ''1e+21''),
            long_parseInt = (\<lambda>neg ds. Fin ((if neg then - 1 else 1) * int (round_double (digits_value ds)))),
            user_exists = (\<lambda>v. v = JStr ''user-1''), local_tza = (\<lambda>t u. 0)\<rparr>"

definition req0 :: request where
  "req0 = \<lparr>multipart = False, body_name = JStr ''Alice'', body_phone = JStr ''555-1111'',
            body_address = JUndefined, body_purpose = JUndefined, body_company = JUndefined,
            body_personToMeet = JUndefined, body_checkin_time = JUndefined, body_photo = JNull,
            file_filename = None, authorization = None, base = ''http://localhost:4000''\<rparr>"

definition row1 :: visitor where
  "row1 = \<lparr>vid = ''id-1'', name = JStr ''Bob'', phone = JStr [], address = JStr [],
            purpose = JStr [], company = JStr [], personToMeet = JStr [], photo = [],
            checkin_time = Fin 1699990000, checkout_time = Some 1699995000, created_by = JNull\<rparr>"

definition env1 :: env where
  "env1 = env0\<lparr>now_ms := 1700000600000, uuid := ''id-3''\<rparr>"

definition row2 :: visitor where
  "row2 = \<lparr>vid = ''id-2'', name = JStr ''Alice'', phone = JStr ''555-1111'', address = JStr [],
            purpose = JStr [], company = JStr [], personToMeet = JStr [], photo = [],
            checkin_time = Fin 1700000000, checkout_time = None, created_by = JNull\<rparr>"

section \<open>Decimal strings and \<^verbatim>\<open>parseInt\<close>\<close>

lemma digit_small: "k < 10 \<Longrightarrow> is_digit (''0123456789'' ! k) \<and> digit_val (''0123456789'' ! k) = k"
proof -
  assume "k < 10"
  then have "k \<in> {0,1,2,3,4,5,6,7,8,9}" by auto
  then show ?thesis by (auto simp: is_digit_def digit_val_def)
qed

lemma is_digit_digit_char: "is_digit (digit_char n)"
  using digit_small [of "n mod 10"] by (simp add: digit_char_def)

lemma digit_val_digit_char: "digit_val (digit_char n) = n mod 10"
  using digit_small [of "n mod 10"] by (simp add: digit_char_def)

lemma is_digit_show_nat: "list_all is_digit (show_nat n)"
  by (induction n rule: show_nat.induct) (subst show_nat.simps, simp add: is_digit_digit_char)

lemma show_nat_nonempty: "show_nat n \<noteq> []"
  by (subst show_nat.simps) simp

lemma digits_value_snoc: "digits_value (ds @ [c]) = 10 * digits_value ds + digit_val c"
  by (simp add: digits_value_def)

lemma digits_value_show_nat: "digits_value (show_nat n) = n"
proof (induction n rule: show_nat.induct)
  case (1 n)
  show ?case
  proof (cases "n < 10")
    case True
    then show ?thesis by (subst show_nat.simps) (simp add: digits_value_def digit_val_digit_char)
  next
    case False
    with 1 show ?thesis
      by (subst show_nat.simps) (simp add: digits_value_snoc digit_val_digit_char)
  qed
qed

lemma length_show_nat: "n < 10 ^ k \<Longrightarrow> 0 < k \<Longrightarrow> length (show_nat n) \<le> k"
proof (induction n arbitrary: k rule: show_nat.induct)
  case (1 n)
  show ?case
  proof (cases "n < 10")
    case True
    with 1(3) show ?thesis by (subst show_nat.simps) simp
  next
    case False
    obtain j where k: "k = Suc j" using 1(3) by (cases k) auto
    have j: "0 < j"
    proof (rule ccontr)
      assume "\<not> 0 < j"
      with k 1(2) False show False by simp
    qed
    have "n div 10 < 10 ^ j" using 1(2) k by (simp add: less_mult_imp_div_less mult.commute)
    from 1(1) [OF False this j] k False show ?thesis by (subst show_nat.simps) simp
  qed
qed

lemma sign_not_ws: "ws_len (CHR ''-'' # r) = 0"
  by (simp add: ws_len_def ascii_ws_def)

lemma ws_len_head:
  assumes "\<not> ascii_ws c" and "c \<noteq> CHR 0xC2" and "c \<noteq> CHR 0xE1" and "c \<noteq> CHR 0xE2"
    and "c \<noteq> CHR 0xE3" and "c \<noteq> CHR 0xEF"
  shows "ws_len (c # r) = 0"
  using assms by (simp add: ws_len_def)

lemma is_digit_not_ws:
  assumes "is_digit c"
  shows "ws_len (c # r) = 0 \<and> c \<noteq> CHR ''-'' \<and> c \<noteq> CHR ''+''"
proof -
  from assms have dig: "c \<in> {CHR ''0'', CHR ''1'', CHR ''2'', CHR ''3'', CHR ''4'', CHR ''5'', CHR ''6'',
      CHR ''7'', CHR ''8'', CHR ''9''}" by (simp add: is_digit_def)
  have a: "\<not> ascii_ws c" using dig by (auto simp: ascii_ws_def)
  have b: "c \<noteq> CHR 0xC2" "c \<noteq> CHR 0xE1" "c \<noteq> CHR 0xE2" "c \<noteq> CHR 0xE3" "c \<noteq> CHR 0xEF"
    using dig by auto
  have s: "c \<noteq> CHR ''-''" "c \<noteq> CHR ''+''" using dig by auto
  from ws_len_head [OF a b] s show ?thesis by simp
qed

lemma skip_ws_none: "ws_len s = 0 \<Longrightarrow> skip_ws s = s"
  by (subst skip_ws.simps) simp

lemma round_double_small: "v < 2 ^ 53 \<Longrightarrow> round_double v = v"
  by (simp add: round_double_def)

lemma parseInt_digits:
  assumes "list_all is_digit ds" and "ds \<noteq> []" and "length ds \<le> 20"
  shows "parseInt e ds = Some (Fin (int (round_double (digits_value ds))))"
proof -
  obtain c r where ds: "ds = c # r" using assms(2) by (cases ds) auto
  with assms(1) have c: "is_digit c" by simp
  have tw: "takeWhile is_digit ds = ds" using assms(1) by (simp add: list_all_iff)
  have sk: "skip_ws ds = ds" using is_digit_not_ws [OF c] ds by (simp add: skip_ws_none)
  have s2: "(case ds of c # r \<Rightarrow> (if c = CHR ''-'' \<or> c = CHR ''+'' then r else ds) | [] \<Rightarrow> ds) = ds"
    using is_digit_not_ws [OF c] ds by simp
  have ng: "(case ds of c # _ \<Rightarrow> c = CHR ''-'' | [] \<Rightarrow> False) = False"
    using is_digit_not_ws [OF c] ds by simp
  have "length (dropWhile (\<lambda>c. c = CHR ''0'') ds) \<le> length ds" by (rule length_dropWhile_le)
  with assms(3) have len: "length (dropWhile (\<lambda>c. c = CHR ''0'') ds) \<le> 20" by simp
  show ?thesis
    unfolding parseInt_def sk Let_def s2 ng tw using assms(2) len by simp
qed

lemma parseInt_show_nat:
  assumes "n < 2 ^ 53"
  shows "parseInt e (show_nat n) = Some (Fin (int n))"
proof -
  have "(2::nat) ^ 53 < 10 ^ 16" by simp
  with assms have "n < 10 ^ 16" by simp
  then have "length (show_nat n) \<le> 16" by (rule length_show_nat) simp
  then have "length (show_nat n) \<le> 20" by simp
  from parseInt_digits [OF is_digit_show_nat show_nat_nonempty this]
  show ?thesis using assms by (simp add: digits_value_show_nat round_double_small)
qed

text \<open>
  Reading back the decimal string of an integer of magnitude below \<open>2^53\<close> gives the
  integer.
\<close>

lemma parseInt_show_int:
  assumes "\<bar>n\<bar> < 2 ^ 53"
  shows "parseInt e (show_int n) = Some (Fin n)"
proof (cases "n < 0")
  case False
  with assms have "nat n < 2 ^ 53" by (simp add: nat_less_iff)
  from parseInt_show_nat [OF this] False show ?thesis by (simp add: show_int_def)
next
  case True
  let ?m = "nat (- n)"
  from True assms have m: "?m < 2 ^ 53" by (simp add: nat_less_iff)
  have "(2::nat) ^ 53 < 10 ^ 16" by simp
  with m have "?m < 10 ^ 16" by simp
  then have "length (show_nat ?m) \<le> 16" by (rule length_show_nat) simp
  then have len: "length (dropWhile (\<lambda>c. c = CHR ''0'') (show_nat ?m)) \<le> 20"
    using length_dropWhile_le [of "\<lambda>c. c = CHR ''0''" "show_nat ?m"] by simp
  have tw: "takeWhile is_digit (show_nat ?m) = show_nat ?m"
    using is_digit_show_nat [of ?m] by (simp add: list_all_iff)
  have sk: "skip_ws (CHR ''-'' # show_nat ?m) = CHR ''-'' # show_nat ?m"
    by (simp add: skip_ws_none sign_not_ws)
  show ?thesis
    unfolding show_int_def parseInt_def using True m len
    by (simp add: sk tw show_nat_nonempty digits_value_show_nat round_double_small)
qed

text \<open>The rounding of a digit run that no Number holds exactly.\<close>

lemma bitlen_bounds: "2 ^ k \<le> n \<Longrightarrow> n < 2 ^ Suc k \<Longrightarrow> bitlen n = Suc k"
proof (induction k arbitrary: n)
  case 0
  then have "n = 1" by simp
  then show ?case by (simp add: bitlen.simps)
next
  case (Suc k)
  from Suc.prems have a: "2 ^ k \<le> n div 2" by simp
  from Suc.prems have b: "n div 2 < 2 ^ Suc k" by simp
  from Suc.prems have "n \<noteq> 0" by auto
  with Suc.IH [OF a b] show ?case by (subst bitlen.simps) simp
qed

lemma bitlen_example: "bitlen 9007199254740993 = 54"
proof -
  have "bitlen 9007199254740993 = Suc 53" by (rule bitlen_bounds) simp_all
  then show ?thesis by simp
qed

lemma round_double_example: "round_double 9007199254740993 = 9007199254740992"
  by (simp add: round_double_def bitlen_example)

text \<open>
  A no-break space before the digits, a digit run beyond \<open>2^53\<close>, and the strings of
  \<^verbatim>\<open>1e21\<close> and of \<^verbatim>\<open>1700000000.5\<close>.
\<close>

lemma skip_ws_nbsp: "skip_ws (CHR 0xC2 # CHR 0xA0 # CHR ''4'' # r) = CHR ''4'' # r"
proof -
  have a: "ws_len (CHR 0xC2 # CHR 0xA0 # CHR ''4'' # r) = 2" by (simp add: ws_len_def ascii_ws_def)
  have "is_digit CHR ''4''" by (simp add: is_digit_def)
  then have b: "ws_len (CHR ''4'' # r) = 0" using is_digit_not_ws by blast
  show ?thesis
    by (subst skip_ws.simps) (simp add: a skip_ws_none b)
qed

lemma parseInt_nbsp: "parseInt e [CHR 0xC2, CHR 0xA0, CHR ''4'', CHR ''2''] = Some (Fin 42)"
proof -
  show ?thesis
    unfolding parseInt_def skip_ws_nbsp Let_def
    by (simp add: is_digit_def digits_value_def digit_val_def round_double_def)
qed

lemma parseInt_rounds: "parseInt e ''9007199254740993'' = Some (Fin 9007199254740992)"
proof -
  have d: "list_all is_digit ''9007199254740993''" by (simp add: is_digit_def)
  have v: "digits_value ''9007199254740993'' = 9007199254740993"
    by (simp add: digits_value_def digit_val_def)
  from parseInt_digits [OF d, of e] show ?thesis by (simp add: v round_double_example)
qed

lemma parseInt_exponent: "parseInt e ''1e+21'' = Some (Fin 1)"
proof -
  have w: "skip_ws ''1e+21'' = ''1e+21''"
    by (rule skip_ws_none) (simp add: ws_len_def ascii_ws_def)
  show ?thesis
    unfolding parseInt_def w Let_def
    by (simp add: is_digit_def digits_value_def digit_val_def round_double_def)
qed

lemma parseInt_fraction: "parseInt e ''1700000000.5'' = Some (Fin 1700000000)"
proof -
  have w: "skip_ws ''1700000000.5'' = ''1700000000.5''"
    by (rule skip_ws_none) (simp add: ws_len_def ascii_ws_def)
  show ?thesis
    unfolding parseInt_def w Let_def
    by (simp add: is_digit_def digits_value_def digit_val_def round_double_def)
qed

lemma checkin_of_exponent: "checkin_of env0 (JNum (10 ^ 21)) = Some (Fin 1)"
proof -
  have s: "to_string env0 (JNum (10 ^ 21)) = ''1e+21''" by (simp add: env0_def)
  have "truthy (JNum (10 ^ 21))" by simp
  then have "checkin_of env0 (JNum (10 ^ 21)) = parseInt env0 (to_string env0 (JNum (10 ^ 21)))"
    unfolding checkin_of_def by (rule if_P)
  then show ?thesis unfolding s by (simp only: parseInt_exponent)
qed

lemma checkin_of_fraction: "checkin_of env0 (JFrac (17000000005 / 10)) = Some (Fin 1700000000)"
proof -
  have s: "to_string env0 (JFrac (17000000005 / 10)) = ''1700000000.5''" by (simp add: env0_def)
  have "truthy (JFrac (17000000005 / 10))" by simp
  then have "checkin_of env0 (JFrac (17000000005 / 10))
      = parseInt env0 (to_string env0 (JFrac (17000000005 / 10)))"
    unfolding checkin_of_def by (rule if_P)
  then show ?thesis unfolding s by (simp only: parseInt_fraction)
qed

section \<open>Authentication\<close>

lemma authMiddleware_cases: "authMiddleware e auth = Inr () \<or> authMiddleware e auth = Inl AuthError"
  by (auto simp: authMiddleware_def split: option.splits)

lemma auth_good: "authMiddleware env0 (Some ''Bearer good'') = Inr ()"
  by (simp add: authMiddleware_def env0_def startsWith_def)

section \<open>Check-out\<close>

lemma update_checkout_unknown: "i \<notin> vid ` set s \<Longrightarrow> update_checkout t i s = s"
  by (induction s) (auto simp: update_checkout_def)

text \<open>
  C2, as the code has it: the handler never looks at what the UPDATE matched. For an id
  that identifies no visitor the store is unchanged, the call never fails with
  \<open>NotFoundError\<close>: it answers \<^verbatim>\<open>{id, checkout_time}\<close> with the current server time when
  the caller is authenticated, and fails with \<open>AuthError\<close> otherwise.
\<close>

theorem check_out_unknown_id:
  assumes "i \<notin> vid ` set s"
  shows "snd (check_out e auth i s) = s
       \<and> fst (check_out e auth i s) \<noteq> Inl NotFoundError
       \<and> (authMiddleware e auth = Inr () \<longrightarrow>
            fst (check_out e auth i s) = Inr (i, epoch_seconds (now_ms e)))
       \<and> (authMiddleware e auth \<noteq> Inr () \<longrightarrow> fst (check_out e auth i s) = Inl AuthError)"
  using update_checkout_unknown [OF assms] authMiddleware_cases [of e auth]
  by (auto simp: check_out_def Let_def)

theorem check_out_unknown_id_witness:
  "''ghost'' \<notin> vid ` set [row1]
   \<and> check_out env0 (Some ''Bearer good'') ''ghost'' [row1] = (Inr (''ghost'', 1700000000), [row1])"
proof -
  have h: "''ghost'' \<notin> vid ` set [row1]" by (simp add: row1_def)
  have t: "epoch_seconds (now_ms env0) = 1700000000" by (simp add: epoch_seconds_def env0_def)
  show ?thesis
    using h check_out_unknown_id [OF h, of env0 "Some ''Bearer good''"] auth_good t
    by (simp add: prod_eq_iff)
qed

text \<open>
  C2 as stated fails: an authenticated check-out of the unknown id \<^verbatim>\<open>ghost\<close> does not
  fail with \<open>NotFoundError\<close>.
\<close>

theorem check_out_unknown_counterexample:
  "''ghost'' \<notin> vid ` set [row1]
   \<and> fst (check_out env0 (Some ''Bearer good'') ''ghost'' [row1]) \<noteq> Inl NotFoundError"
  by (simp add: check_out_def auth_good row1_def Let_def)

lemma set_update_checkout:
  "set (update_checkout t i s) = (\<lambda>r. if vid r = i then r\<lparr>checkout_time := Some t\<rparr> else r) ` set s"
  by (simp add: update_checkout_def)

text \<open>
  C6: check-out is not idempotent. For a visitor that is already checked out (at \<open>t0\<close>), an
  authenticated check-out succeeds and every row of that id then holds the server time of
  this call; when that time differs from \<open>t0\<close> the old record is gone from the table.
\<close>

theorem check_out_twice_overwrites:
  assumes "authMiddleware e auth = Inr ()"
    and "r \<in> set s" and "vid r = i" and "checkout_time r = Some t0"
  shows "fst (check_out e auth i s) = Inr (i, epoch_seconds (now_ms e))
       \<and> r\<lparr>checkout_time := Some (epoch_seconds (now_ms e))\<rparr> \<in> set (snd (check_out e auth i s))
       \<and> list_all (\<lambda>r'. vid r' \<noteq> i \<or> checkout_time r' = Some (epoch_seconds (now_ms e)))
            (snd (check_out e auth i s))
       \<and> (t0 \<noteq> epoch_seconds (now_ms e) \<longrightarrow> r \<notin> set (snd (check_out e auth i s)))"
proof -
  let ?t = "epoch_seconds (now_ms e)"
  have co: "check_out e auth i s = (Inr (i, ?t), update_checkout ?t i s)"
    using assms(1) by (simp add: check_out_def Let_def)
  have m: "r\<lparr>checkout_time := Some ?t\<rparr> \<in> set (update_checkout ?t i s)"
    unfolding set_update_checkout using assms(2,3) by force
  have al: "list_all (\<lambda>r'. vid r' \<noteq> i \<or> checkout_time r' = Some ?t) (update_checkout ?t i s)"
    by (induction s) (simp_all add: update_checkout_def)
  have "r \<notin> set (update_checkout ?t i s)" if "t0 \<noteq> ?t"
  proof
    assume "r \<in> set (update_checkout ?t i s)"
    with al have "vid r \<noteq> i \<or> checkout_time r = Some ?t" by (simp add: list_all_iff)
    with assms(3,4) that show False by simp
  qed
  with co m al show ?thesis by simp
qed

theorem check_out_twice_overwrites_witness:
  "check_out env1 (Some ''Bearer good'') ''id-1'' (snd (check_out env0 (Some ''Bearer good'') ''id-1'' [row1]))
     = (Inr (''id-1'', 1700000600), [row1\<lparr>checkout_time := Some 1700000600\<rparr>])"
proof -
  define r1 where "r1 = row1\<lparr>checkout_time := Some 1700000000\<rparr>"
  have t0: "epoch_seconds (now_ms env0) = 1700000000" by (simp add: epoch_seconds_def env0_def)
  have v: "vid row1 = ''id-1''" by (simp add: row1_def)
  have s1: "snd (check_out env0 (Some ''Bearer good'') ''id-1'' [row1]) = [r1]"
    by (simp add: check_out_def auth_good update_checkout_def Let_def t0 v r1_def)
  have au: "authMiddleware env1 (Some ''Bearer good'') = Inr ()"
    by (simp add: authMiddleware_def env1_def env0_def startsWith_def)
  have t: "epoch_seconds (now_ms env1) = 1700000600" by (simp add: epoch_seconds_def env1_def)
  have a: "r1 \<in> set [r1]" by simp
  have b: "vid r1 = ''id-1''" by (simp add: r1_def v)
  have c: "checkout_time r1 = Some 1700000000" by (simp add: r1_def)
  have u: "r1\<lparr>checkout_time := Some 1700000600\<rparr> = row1\<lparr>checkout_time := Some 1700000600\<rparr>"
    by (simp add: r1_def)
  have n: "snd (check_out env1 (Some ''Bearer good'') ''id-1'' [r1]) = [r1\<lparr>checkout_time := Some 1700000600\<rparr>]"
    by (simp add: check_out_def au update_checkout_def Let_def t b)
  have f: "fst (check_out env1 (Some ''Bearer good'') ''id-1'' [r1]) = Inr (''id-1'', 1700000600)"
    using check_out_twice_overwrites [OF au a b c] t by simp
  show ?thesis unfolding s1 using f n u by (simp add: prod_eq_iff)
qed

section \<open>Creating a visitor\<close>

lemma created_by_bad_token: "jwt_verify e tok = None \<Longrightarrow> created_by_of e (Some (''Bearer '' @ tok)) = JNull"
  by (simp add: created_by_of_def startsWith_def)

lemma check_in_cases:
  assumes "check_in e r s = (Inr v, s')"
  shows "\<exists>row. s' = s @ [row] \<and> vid row = uuid e \<and> res_id v = uuid e
           \<and> checkout_time row = None
           \<and> checkin_of e (body_checkin_time r) = Some (checkin_time row)
           \<and> created_by row = created_by_of e (authorization r)
           \<and> name row = body_name r \<and> truthy (body_name r)
           \<and> uuid e \<notin> vid ` set s"
  using assms
  by (auto simp: check_in_def insert_visitor_def Let_def split: if_splits sum.splits option.splits)

lemma check_in_error_store: "fst (check_in e r s) = Inl err \<Longrightarrow> snd (check_in e r s) = s"
  by (auto simp: check_in_def insert_visitor_def Let_def split: if_splits sum.splits option.splits)

lemma check_in_no_auth_error: "fst (check_in e r s) \<noteq> Inl AuthError"
  by (auto simp: check_in_def insert_visitor_def Let_def photo_url_def inline_photo_def saveBase64Image_def
      split: if_splits sum.splits option.splits jsval.splits)

lemma check_in_req0: "check_in env0 (req0\<lparr>body_checkin_time := ct\<rparr>) [row1] =
   (case checkin_of env0 ct of None \<Rightarrow> (Inl InternalError, [row1])
    | Some c \<Rightarrow> (Inr \<lparr>res_id = ''id-2'', res_name = JStr ''Alice'', res_phone = JStr ''555-1111'',
         res_address = JUndefined, res_purpose = JUndefined, res_company = JUndefined,
         res_personToMeet = JUndefined, res_photo = None, res_checkin_time = Some c\<rparr>,
       [row1, \<lparr>vid = ''id-2'', name = JStr ''Alice'', phone = JStr ''555-1111'', address = JStr [],
            purpose = JStr [], company = JStr [], personToMeet = JStr [], photo = [],
            checkin_time = c, checkout_time = None, created_by = JNull\<rparr>]))"
  by (simp add: check_in_def env0_def req0_def row1_def photo_url_def inline_photo_def
        insert_visitor_def Let_def js_or_def created_by_of_def split: option.splits)

text \<open>
  C10: a bearer token that does not verify is swallowed by the \<^verbatim>\<open>catch\<close>. The request is
  handled exactly as the same request without an Authorization header, it never fails with
  \<open>AuthError\<close>, and the row it persists has \<^verbatim>\<open>created_by\<close> null.
\<close>

theorem check_in_bad_token:
  assumes "jwt_verify e tok = None"
  shows "check_in e (r\<lparr>authorization := Some (''Bearer '' @ tok)\<rparr>) s
           = check_in e (r\<lparr>authorization := None\<rparr>) s
       \<and> fst (check_in e (r\<lparr>authorization := Some (''Bearer '' @ tok)\<rparr>) s) \<noteq> Inl AuthError
       \<and> (\<forall>v s'. check_in e (r\<lparr>authorization := Some (''Bearer '' @ tok)\<rparr>) s = (Inr v, s') \<longrightarrow>
            (\<exists>row. s' = s @ [row] \<and> vid row = res_id v \<and> created_by row = JNull))"
proof -
  have "created_by_of e (Some (''Bearer '' @ tok)) = created_by_of e None"
    using assms by (simp add: created_by_bad_token) (simp add: created_by_of_def)
  then have eq: "check_in e (r\<lparr>authorization := Some (''Bearer '' @ tok)\<rparr>) s
           = check_in e (r\<lparr>authorization := None\<rparr>) s"
    by (simp add: check_in_def photo_url_def inline_photo_def Let_def split: sum.splits option.splits)
  moreover have "\<exists>row. s' = s @ [row] \<and> vid row = res_id v \<and> created_by row = JNull"
    if "check_in e (r\<lparr>authorization := Some (''Bearer '' @ tok)\<rparr>) s = (Inr v, s')" for v s'
    using check_in_cases [OF that] created_by_bad_token [OF assms] by auto
  ultimately show ?thesis using check_in_no_auth_error by blast
qed

theorem check_in_bad_token_witness:
  "jwt_verify env0 ''expired'' = None
   \<and> check_in env0 (req0\<lparr>authorization := Some ''Bearer expired''\<rparr>) [row1]
       = check_in env0 (req0\<lparr>authorization := None\<rparr>) [row1]
   \<and> created_by (last (snd (check_in env0 (req0\<lparr>authorization := Some ''Bearer expired''\<rparr>) [row1]))) = JNull
   \<and> length (snd (check_in env0 (req0\<lparr>authorization := Some ''Bearer expired''\<rparr>) [row1])) = 2"
proof -
  have h: "jwt_verify env0 ''expired'' = None" by (simp add: env0_def)
  have ok: "\<exists>v s'. check_in env0 (req0\<lparr>authorization := Some (''Bearer '' @ ''expired'')\<rparr>) [row1] = (Inr v, s')"
    by (simp add: check_in_def env0_def req0_def row1_def photo_url_def inline_photo_def
        checkin_of_def insert_visitor_def created_by_of_def startsWith_def Let_def)
  then obtain v s' where c: "check_in env0 (req0\<lparr>authorization := Some (''Bearer '' @ ''expired'')\<rparr>) [row1] = (Inr v, s')"
    by blast
  from check_in_bad_token [OF h, of req0 "[row1]"] c
  obtain row where row: "s' = [row1] @ [row]" "created_by row = JNull" by blast
  have eq: "check_in env0 (req0\<lparr>authorization := Some ''Bearer expired''\<rparr>) [row1]
       = check_in env0 (req0\<lparr>authorization := None\<rparr>) [row1]"
    using check_in_bad_token [OF h, of req0 "[row1]"] by simp
  have st: "snd (check_in env0 (req0\<lparr>authorization := Some ''Bearer expired''\<rparr>) [row1]) = [row1, row]"
    using c row by simp
  show ?thesis unfolding st using h eq row by simp
qed

text \<open>
  C1, as the code has it: a creation that succeeds persists the server time in epoch
  seconds when the body carries no check-in time (absent, null, false, 0 or the empty
  string). A check-in time sent by the client is not ignored: the value persisted is what
  \<^verbatim>\<open>parseInt(checkin_time, 10)\<close> returns for it, which is the number itself for an integer of
  magnitude below \<open>2^53\<close> and, for a string, the number read from its leading white space,
  sign and decimal digits.
\<close>

theorem check_in_checkin_time:
  assumes "check_in e r s = (Inr v, s')"
  shows "\<exists>row. s' = s @ [row] \<and> vid row = res_id v
     \<and> (\<not> truthy (body_checkin_time r) \<longrightarrow> checkin_time row = Fin (epoch_seconds (now_ms e)))
     \<and> (truthy (body_checkin_time r) \<longrightarrow>
           parseInt e (to_string e (body_checkin_time r)) = Some (checkin_time row))
     \<and> (\<forall>n. body_checkin_time r = JNum n \<and> n \<noteq> 0 \<and> \<bar>n\<bar> < 2 ^ 53 \<longrightarrow> checkin_time row = Fin n)
     \<and> (\<forall>str. body_checkin_time r = JStr str \<and> str \<noteq> [] \<longrightarrow> parseInt e str = Some (checkin_time row))"
proof -
  from check_in_cases [OF assms] obtain row where
    row: "s' = s @ [row]" "vid row = uuid e" "res_id v = uuid e"
      "checkin_of e (body_checkin_time r) = Some (checkin_time row)" by blast
  from row(4) have a: "\<not> truthy (body_checkin_time r) \<longrightarrow> checkin_time row = Fin (epoch_seconds (now_ms e))"
    by (auto simp: checkin_of_def)
  from row(4) have b: "truthy (body_checkin_time r) \<longrightarrow>
      parseInt e (to_string e (body_checkin_time r)) = Some (checkin_time row)"
    by (auto simp: checkin_of_def)
  have c: "checkin_time row = Fin n" if n: "body_checkin_time r = JNum n" "n \<noteq> 0" "\<bar>n\<bar> < 2 ^ 53" for n
  proof -
    have "(2::int) ^ 53 < 10 ^ 21" by simp
    with n(3) have "\<bar>n\<bar> < 10 ^ 21" by linarith
    with n(1) have "to_string e (body_checkin_time r) = show_int n" by simp
    with b n(1,2) have "parseInt e (show_int n) = Some (checkin_time row)" by simp
    with parseInt_show_int [OF n(3), of e] show ?thesis by simp
  qed
  from b have d: "\<forall>str. body_checkin_time r = JStr str \<and> str \<noteq> [] \<longrightarrow> parseInt e str = Some (checkin_time row)"
    by auto
  from row(1,2,3) a b c d show ?thesis by auto
qed

theorem check_in_checkin_time_witness:
  "checkin_time (last (snd (check_in env0 req0 [row1]))) = Fin (epoch_seconds (now_ms env0))
   \<and> epoch_seconds (now_ms env0) = 1700000000
   \<and> checkin_time (last (snd (check_in env0 (req0\<lparr>body_checkin_time := JNum 1600000000\<rparr>) [row1])))
       = Fin 1600000000"
proof -
  have c: "checkin_of env0 JUndefined = Some (Fin 1700000000)"
    by (simp add: checkin_of_def env0_def epoch_seconds_def)
  have r: "req0\<lparr>body_checkin_time := JUndefined\<rparr> = req0" by (simp add: req0_def)
  have "\<exists>v0 s0. check_in env0 req0 [row1] = (Inr v0, s0)"
    using check_in_req0 [of JUndefined] c r by simp
  then obtain v0 s0 where ci: "check_in env0 req0 [row1] = (Inr v0, s0)" by blast
  have u: "\<not> truthy (body_checkin_time req0)" by (simp add: req0_def)
  from check_in_checkin_time [OF ci] u obtain row0 where
    row0: "s0 = [row1] @ [row0]" "checkin_time row0 = Fin (epoch_seconds (now_ms env0))" by blast
  have t: "epoch_seconds (now_ms env0) = 1700000000" by (simp add: epoch_seconds_def env0_def)
  have "\<bar>1600000000 :: int\<bar> < 2 ^ 53" by simp
  then have p: "parseInt env0 (show_int 1600000000) = Some (Fin 1600000000)" by (rule parseInt_show_int)
  have c2: "checkin_of env0 (JNum 1600000000) = Some (Fin 1600000000)"
    using p by (simp add: checkin_of_def)
  have "\<exists>v1 s1. check_in env0 (req0\<lparr>body_checkin_time := JNum 1600000000\<rparr>) [row1] = (Inr v1, s1)"
    using check_in_req0 [of "JNum 1600000000"] c2 by simp
  then obtain v1 s1 where
    ci2: "check_in env0 (req0\<lparr>body_checkin_time := JNum 1600000000\<rparr>) [row1] = (Inr v1, s1)" by blast
  have b2: "body_checkin_time (req0\<lparr>body_checkin_time := JNum 1600000000\<rparr>) = JNum 1600000000" by simp
  from check_in_checkin_time [OF ci2] b2 obtain row1' where
    row1': "s1 = [row1] @ [row1']" "checkin_time row1' = Fin 1600000000" by auto
  from ci row0 ci2 row1' t show ?thesis by simp
qed

text \<open>
  C1 as stated fails: a request that carries \<^verbatim>\<open>checkin_time: 1600000000\<close> is persisted with
  that value while the server clock reads 1700000000.
\<close>

theorem check_in_client_time_counterexample:
  "checkin_time (last (snd (check_in env0 (req0\<lparr>body_checkin_time := JNum 1600000000\<rparr>) [row1])))
     = Fin 1600000000
   \<and> epoch_seconds (now_ms env0) = 1700000000"
proof -
  have "\<bar>1600000000 :: int\<bar> < 2 ^ 53" by simp
  then have p: "parseInt env0 (show_int 1600000000) = Some (Fin 1600000000)" by (rule parseInt_show_int)
  have c: "checkin_of env0 (JNum 1600000000) = Some (Fin 1600000000)"
    using p by (simp add: checkin_of_def)
  show ?thesis using check_in_req0 [of "JNum 1600000000"] c
    by (simp add: env0_def epoch_seconds_def)
qed

text \<open>
  C3, as the code has it: a request whose name is empty (absent, null, the empty string)
  fails and persists nothing; the failure is \<open>ValidationError\<close>, except that a failed
  multipart upload is answered with an internal error before the name is read. There is
  no trimming: a name of blanks is not empty.
\<close>

theorem check_in_empty_name:
  assumes "\<not> truthy (body_name r)"
  shows "snd (check_in e r s) = s
       \<and> fst (check_in e r s) = Inl (if multipart r \<and> \<not> multer_ok e then InternalError else ValidationError)"
  using assms by (simp add: check_in_def)

theorem check_in_empty_name_witness:
  "\<not> truthy (body_name (req0\<lparr>body_name := JStr []\<rparr>))
   \<and> check_in env0 (req0\<lparr>body_name := JStr []\<rparr>) [row1] = (Inl ValidationError, [row1])"
proof -
  have h: "\<not> truthy (body_name (req0\<lparr>body_name := JStr []\<rparr>))" by simp
  have m: "\<not> multipart (req0\<lparr>body_name := JStr []\<rparr>)" by (simp add: req0_def)
  show ?thesis using h m check_in_empty_name [OF h, of env0 "[row1]"] by (simp add: prod_eq_iff)
qed

text \<open>
  C3 as stated fails: a request whose name is three blanks is accepted and persisted.
\<close>

theorem check_in_whitespace_name_counterexample:
  "fst (check_in env0 (req0\<lparr>body_name := JStr ''   ''\<rparr>) [row1]) \<noteq> Inl ValidationError
   \<and> name (last (snd (check_in env0 (req0\<lparr>body_name := JStr ''   ''\<rparr>) [row1]))) = JStr ''   ''
   \<and> length (snd (check_in env0 (req0\<lparr>body_name := JStr ''   ''\<rparr>) [row1])) = 2"
  by (simp add: check_in_def env0_def req0_def row1_def photo_url_def inline_photo_def
        insert_visitor_def Let_def js_or_def created_by_of_def checkin_of_def)

section \<open>Timestamp normalisation\<close>




text \<open>
  A second pass changes nothing below 10,000,000,001,000; above, it divides once more.
\<close>

lemma normalize_checkin_twice:
  "t < 10000000001000 \<Longrightarrow>
     normalize_checkin dp (normalize_checkin dp (JNum t)) = normalize_checkin dp (JNum t)"
  by (auto simp: normalize_checkin_def js_or_def Let_def)

lemma normalize_checkin_twice_large:
  "normalize_checkin (\<lambda>s. None) (normalize_checkin (\<lambda>s. None) (JNum 100000000000000))
     \<noteq> normalize_checkin (\<lambda>s. None) (JNum 100000000000000)"
  by (simp add: normalize_checkin_def js_or_def Let_def)

section \<open>The life of a record\<close>

lemma step_keeps_null:
  assumes "\<not> checks_out i x"
    and "list_all (\<lambda>row. vid row \<noteq> i \<or> checkout_time row = None) s"
  shows "list_all (\<lambda>row. vid row \<noteq> i \<or> checkout_time row = None) (step x s)"
proof (cases x)
  case (CheckIn e r)
  show ?thesis
  proof (cases "fst (check_in e r s)")
    case (Inl err)
    then have "snd (check_in e r s) = s" by (rule check_in_error_store)
    with CheckIn assms(2) show ?thesis by simp
  next
    case (Inr v)
    then have "check_in e r s = (Inr v, snd (check_in e r s))" by (simp add: prod_eq_iff)
    from check_in_cases [OF this] obtain row where
      "snd (check_in e r s) = s @ [row]" "checkout_time row = None" by blast
    with CheckIn assms(2) show ?thesis by simp
  qed
next
  case (CheckOut e auth j)
  with assms(1) have ji: "j \<noteq> i" by simp
  have "list_all (\<lambda>row. vid row \<noteq> i \<or> checkout_time row = None) (update_checkout t j s)" for t
    using assms(2) ji by (induction s) (simp_all add: update_checkout_def)
  then show ?thesis using CheckOut assms(2)
    by (cases "authMiddleware e auth") (simp_all add: check_out_def Let_def)
qed

lemma step_keeps_id:
  assumes "i \<in> vid ` set s"
  shows "i \<in> vid ` set (step x s)"
proof (cases x)
  case (CheckIn e r)
  show ?thesis
  proof (cases "fst (check_in e r s)")
    case (Inl err)
    then have "snd (check_in e r s) = s" by (rule check_in_error_store)
    with CheckIn assms show ?thesis by simp
  next
    case (Inr v)
    then have "check_in e r s = (Inr v, snd (check_in e r s))" by (simp add: prod_eq_iff)
    from check_in_cases [OF this] obtain row where
      "snd (check_in e r s) = s @ [row]" by blast
    with CheckIn assms show ?thesis by simp
  qed
next
  case (CheckOut e auth j)
  have "vid ` set (update_checkout t j s) = vid ` set s" for t
    by (induction s) (simp_all add: update_checkout_def)
  then show ?thesis using CheckOut assms
    by (cases "authMiddleware e auth") (simp_all add: check_out_def Let_def)
qed

lemma run_keeps_null:
  assumes "list_all (\<lambda>x. \<not> checks_out i x) xs"
    and "list_all (\<lambda>row. vid row \<noteq> i \<or> checkout_time row = None) s"
  shows "list_all (\<lambda>row. vid row \<noteq> i \<or> checkout_time row = None) (run xs s)"
  using assms
proof (induction xs arbitrary: s)
  case Nil
  then show ?case by simp
next
  case (Cons x xs)
  from Cons.prems have "\<not> checks_out i x" and rest: "list_all (\<lambda>x. \<not> checks_out i x) xs" by simp_all
  from step_keeps_null [OF this(1) Cons.prems(2)] Cons.IH [OF rest] show ?case by simp
qed

lemma run_keeps_id: "i \<in> vid ` set s \<Longrightarrow> i \<in> vid ` set (run xs s)"
  by (induction xs arbitrary: s) (simp_all add: step_keeps_id)

lemma check_out_sets:
  assumes "authMiddleware e auth = Inr ()"
  shows "list_all (\<lambda>row. vid row \<noteq> i \<or> checkout_time row = Some (epoch_seconds (now_ms e)))
           (snd (check_out e auth i s))
       \<and> vid ` set (snd (check_out e auth i s)) = vid ` set s"
proof -
  let ?t = "epoch_seconds (now_ms e)"
  have co: "snd (check_out e auth i s) = update_checkout ?t i s"
    using assms by (simp add: check_out_def Let_def)
  have "list_all (\<lambda>row. vid row \<noteq> i \<or> checkout_time row = Some ?t) (update_checkout ?t i s)"
    by (induction s) (simp_all add: update_checkout_def)
  moreover have "vid ` set (update_checkout ?t i s) = vid ` set s"
    by (induction s) (simp_all add: update_checkout_def)
  ultimately show ?thesis using co by simp
qed

text \<open>
  C7: a check-in that succeeds had a non-empty name; its id is fresh (no row of the table
  had it, and the ids stay distinct) and its row has \<^verbatim>\<open>checkout_time\<close> NULL. Through every
  history of writes that holds no check-out of that id, the row is there with
  \<^verbatim>\<open>checkout_time\<close> NULL; an authenticated check-out of the id then succeeds and leaves
  the row with the clock of that call, in epoch seconds.
\<close>

theorem check_in_lifecycle:
  assumes "check_in e r s = (Inr v, s')"
  shows "truthy (body_name r)
       \<and> res_id v \<notin> vid ` set s
       \<and> (distinct (map vid s) \<longrightarrow> distinct (map vid s'))
       \<and> (\<exists>row. s' = s @ [row] \<and> vid row = res_id v \<and> checkout_time row = None)
       \<and> (\<forall>xs. list_all (\<lambda>x. \<not> checks_out (res_id v) x) xs \<longrightarrow>
             res_id v \<in> vid ` set (run xs s')
             \<and> list_all (\<lambda>row. vid row \<noteq> res_id v \<or> checkout_time row = None) (run xs s')
             \<and> (\<forall>e2 auth. authMiddleware e2 auth = Inr () \<longrightarrow>
                   fst (check_out e2 auth (res_id v) (run xs s')) = Inr (res_id v, epoch_seconds (now_ms e2))
                   \<and> res_id v \<in> vid ` set (snd (check_out e2 auth (res_id v) (run xs s')))
                   \<and> list_all (\<lambda>row. vid row \<noteq> res_id v
                                  \<or> checkout_time row = Some (epoch_seconds (now_ms e2)))
                        (snd (check_out e2 auth (res_id v) (run xs s')))))"
proof -
  from check_in_cases [OF assms] obtain row where
    row: "s' = s @ [row]" "vid row = uuid e" "res_id v = uuid e" "checkout_time row = None"
      "truthy (body_name r)" "uuid e \<notin> vid ` set s" by blast
  let ?i = "res_id v"
  have fresh: "?i \<notin> vid ` set s" using row by simp
  have dist: "distinct (map vid s) \<longrightarrow> distinct (map vid s')" using row by auto
  have ex: "\<exists>row. s' = s @ [row] \<and> vid row = ?i \<and> checkout_time row = None" using row by auto
  have mem: "?i \<in> vid ` set s'" using row by simp
  have null0: "list_all (\<lambda>row. vid row \<noteq> ?i \<or> checkout_time row = None) s'"
    using row fresh by (auto simp: list_all_iff image_iff)
  have hist: "?i \<in> vid ` set (run xs s')
       \<and> list_all (\<lambda>row. vid row \<noteq> ?i \<or> checkout_time row = None) (run xs s')
       \<and> (\<forall>e2 auth. authMiddleware e2 auth = Inr () \<longrightarrow>
             fst (check_out e2 auth ?i (run xs s')) = Inr (?i, epoch_seconds (now_ms e2))
             \<and> ?i \<in> vid ` set (snd (check_out e2 auth ?i (run xs s')))
             \<and> list_all (\<lambda>row. vid row \<noteq> ?i \<or> checkout_time row = Some (epoch_seconds (now_ms e2)))
                  (snd (check_out e2 auth ?i (run xs s'))))"
    if xs: "list_all (\<lambda>x. \<not> checks_out ?i x) xs" for xs
  proof -
    have m: "?i \<in> vid ` set (run xs s')" using mem by (rule run_keeps_id)
    have n: "list_all (\<lambda>row. vid row \<noteq> ?i \<or> checkout_time row = None) (run xs s')"
      using xs null0 by (rule run_keeps_null)
    have c: "fst (check_out e2 auth ?i (run xs s')) = Inr (?i, epoch_seconds (now_ms e2))
             \<and> ?i \<in> vid ` set (snd (check_out e2 auth ?i (run xs s')))
             \<and> list_all (\<lambda>row. vid row \<noteq> ?i \<or> checkout_time row = Some (epoch_seconds (now_ms e2)))
                  (snd (check_out e2 auth ?i (run xs s')))"
      if au: "authMiddleware e2 auth = Inr ()" for e2 auth
    proof -
      have "fst (check_out e2 auth ?i (run xs s')) = Inr (?i, epoch_seconds (now_ms e2))"
        using au by (simp add: check_out_def Let_def)
      with check_out_sets [OF au, of ?i "run xs s'"] m show ?thesis by simp
    qed
    from m n c show ?thesis by blast
  qed
  from row(5) fresh dist ex hist show ?thesis by blast
qed

theorem check_in_lifecycle_witness:
  "fst (check_in env0 req0 [row1]) \<noteq> Inl ValidationError
   \<and> vid (last (snd (check_in env0 req0 [row1]))) = ''id-2''
   \<and> ''id-2'' \<notin> vid ` set [row1]
   \<and> list_all (\<lambda>row. vid row \<noteq> ''id-2'' \<or> checkout_time row = None)
        (run [CheckOut env1 (Some ''Bearer good'') ''id-1''] (snd (check_in env0 req0 [row1])))
   \<and> list_all (\<lambda>row. vid row \<noteq> ''id-2'' \<or> checkout_time row = Some 1700000600)
        (snd (check_out env1 (Some ''Bearer good'') ''id-2''
               (run [CheckOut env1 (Some ''Bearer good'') ''id-1''] (snd (check_in env0 req0 [row1])))))"
proof -
  let ?V = "\<lparr>res_id = ''id-2'', res_name = JStr ''Alice'', res_phone = JStr ''555-1111'',
         res_address = JUndefined, res_purpose = JUndefined, res_company = JUndefined,
         res_personToMeet = JUndefined, res_photo = None, res_checkin_time = Some (Fin 1700000000)\<rparr>"
  let ?R = "\<lparr>vid = ''id-2'', name = JStr ''Alice'', phone = JStr ''555-1111'', address = JStr [],
            purpose = JStr [], company = JStr [], personToMeet = JStr [], photo = [],
            checkin_time = Fin 1700000000, checkout_time = None, created_by = JNull\<rparr>"
  let ?xs = "[CheckOut env1 (Some ''Bearer good'') ''id-1'']"
  have c: "checkin_of env0 JUndefined = Some (Fin 1700000000)"
    by (simp add: checkin_of_def env0_def epoch_seconds_def)
  have r: "req0\<lparr>body_checkin_time := JUndefined\<rparr> = req0" by (simp add: req0_def)
  have ci: "check_in env0 req0 [row1] = (Inr ?V, [row1, ?R])"
    using check_in_req0 [of JUndefined] c r by simp
  have i: "res_id ?V = ''id-2''" by simp
  have au: "authMiddleware env1 (Some ''Bearer good'') = Inr ()"
    by (simp add: authMiddleware_def env1_def env0_def startsWith_def)
  have t: "epoch_seconds (now_ms env1) = 1700000600" by (simp add: epoch_seconds_def env1_def)
  have h: "list_all (\<lambda>x. \<not> checks_out ''id-2'' x) ?xs" by simp
  note th = check_in_lifecycle [OF ci, unfolded i]
  from th have fresh: "''id-2'' \<notin> vid ` set [row1]" by blast
  from th h have n: "list_all (\<lambda>row. vid row \<noteq> ''id-2'' \<or> checkout_time row = None) (run ?xs [row1, ?R])"
    by blast
  from th h au have o: "list_all (\<lambda>row. vid row \<noteq> ''id-2''
                                  \<or> checkout_time row = Some (epoch_seconds (now_ms env1)))
                        (snd (check_out env1 (Some ''Bearer good'') ''id-2'' (run ?xs [row1, ?R])))"
    by blast
  show ?thesis unfolding ci using fresh n o t by simp
qed

section \<open>Listing\<close>

lemma parseInt_zero: "parseInt e ''0'' = Some (Fin 0)"
  using parseInt_show_int [of 0 e] by (simp add: show_int_def show_nat.simps digit_char_def)

lemma le_ext_key: "le_ext a b \<longleftrightarrow> desc_key b \<le> desc_key a"
  by (cases a; cases b) simp_all

lemma between_Some:
  "between (Some lo) (Some hi) r = (le_ext lo (checkin_time r) \<and> le_ext (checkin_time r) hi)"
  by (simp add: between_def)

lemma between_None: "between None hi r = False" "between lo None r = False"
  by (simp_all add: between_def split: option.splits)

lemma select_between_mset: "mset (select_between lo hi s) = mset (filter (between lo hi) s)"
  by (simp add: select_between_def)

lemma select_between_sorted:
  "sorted_wrt (\<lambda>x y. le_ext (checkin_time y) (checkin_time x)) (select_between lo hi s)"
proof -
  have "sorted (map (\<lambda>r. desc_key (checkin_time r)) (select_between lo hi s))"
    unfolding select_between_def by (rule sorted_sort_key)
  then show ?thesis by (simp add: sorted_wrt_map le_ext_key)
qed

lemma auth_good1: "authMiddleware env1 (Some ''Bearer good'') = Inr ()"
  by (simp add: authMiddleware_def env1_def env0_def startsWith_def)

lemma now_env1: "epoch_seconds (now_ms env1) = 1700000600"
  by (simp add: epoch_seconds_def env1_def)

text \<open>
  C5, as the code has it: the server compares the stored check-in time, not a normalised
  one. An authenticated listing returns exactly the rows whose stored check-in time lies
  within the inclusive bounds, by descending stored check-in time; a bound that does not
  parse to a number selects no row; the bounds are 0 and the server time when the query
  leaves them out.
\<close>

theorem list_visitors_window:
  assumes "authMiddleware e auth = Inr ()"
    and "from = parseInt e (query_or qfrom ''0'')"
    and "to = parseInt e (query_or qto (show_int (epoch_seconds (now_ms e))))"
  shows "\<exists>rows. list_visitors e auth qfrom qto b s = Inr rows
     \<and> sorted_wrt (\<lambda>x y. le_ext (checkin_time y) (checkin_time x)) (map fst rows)
     \<and> (\<forall>lo hi. from = Some lo \<and> to = Some hi \<longrightarrow>
           mset (map fst rows)
             = mset (filter (\<lambda>r. le_ext lo (checkin_time r) \<and> le_ext (checkin_time r) hi) s))
     \<and> (from = None \<or> to = None \<longrightarrow> rows = [])
     \<and> (qfrom = None \<longrightarrow> from = Some (Fin 0))
     \<and> (qto = None \<and> \<bar>epoch_seconds (now_ms e)\<bar> < 2 ^ 53 \<longrightarrow> to = Some (Fin (epoch_seconds (now_ms e))))"
proof -
  let ?rows = "map (\<lambda>r. (r, listed_photo b r)) (select_between from to s)"
  have l: "list_visitors e auth qfrom qto b s = Inr ?rows"
    using assms by (simp add: list_visitors_def Let_def)
  have f: "map fst ?rows = select_between from to s" by (simp add: comp_def)
  have st: "sorted_wrt (\<lambda>x y. le_ext (checkin_time y) (checkin_time x)) (map fst ?rows)"
    unfolding f by (rule select_between_sorted)
  have m: "mset (map fst ?rows)
             = mset (filter (\<lambda>r. le_ext lo (checkin_time r) \<and> le_ext (checkin_time r) hi) s)"
    if "from = Some lo \<and> to = Some hi" for lo hi
    unfolding f using that by (simp add: select_between_mset between_Some)
  have n: "?rows = []" if "from = None \<or> to = None"
    using that by (auto simp: select_between_def between_None)
  have d1: "qfrom = None \<longrightarrow> from = Some (Fin 0)"
    using assms(2) by (simp add: query_or_def parseInt_zero)
  have d2: "qto = None \<and> \<bar>epoch_seconds (now_ms e)\<bar> < 2 ^ 53 \<longrightarrow> to = Some (Fin (epoch_seconds (now_ms e)))"
    using assms(3) by (simp add: query_or_def parseInt_show_int)
  from l st m n d1 d2 show ?thesis by blast
qed

theorem list_visitors_window_witness:
  "authMiddleware env1 (Some ''Bearer good'') = Inr ()
   \<and> (\<exists>rows. list_visitors env1 (Some ''Bearer good'') None (Some ''1699999999'') ''http://h'' [row1, row2]
                 = Inr rows
         \<and> mset (map fst rows) = mset [row1])"
proof -
  have lo: "parseInt env1 (query_or None ''0'') = Some (Fin 0)" by (simp add: query_or_def parseInt_zero)
  have d: "list_all is_digit ''1699999999''" by (simp add: is_digit_def)
  have v: "digits_value ''1699999999'' = 1699999999" by (simp add: digits_value_def digit_val_def)
  have p: "parseInt env1 ''1699999999'' = Some (Fin 1699999999)"
    using parseInt_digits [OF d, of env1] by (simp add: v round_double_def)
  have hi: "parseInt env1 (query_or (Some ''1699999999'') (show_int (epoch_seconds (now_ms env1))))
       = Some (Fin 1699999999)"
    using p by (simp add: query_or_def)
  have f: "filter (\<lambda>r. le_ext (Fin 0) (checkin_time r) \<and> le_ext (checkin_time r) (Fin 1699999999)) [row1, row2]
       = [row1]"
    by (simp add: row1_def row2_def)
  from list_visitors_window [OF auth_good1 lo [symmetric] hi [symmetric], of "''http://h''" "[row1, row2]"]
  obtain rows where rows:
    "list_visitors env1 (Some ''Bearer good'') None (Some ''1699999999'') ''http://h'' [row1, row2] = Inr rows"
    "mset (map fst rows)
       = mset (filter (\<lambda>r. le_ext (Fin 0) (checkin_time r) \<and> le_ext (checkin_time r) (Fin 1699999999))
                [row1, row2])"
    by blast
  from rows(2) have "mset (map fst rows) = mset [row1]" unfolding f .
  with rows(1) auth_good1 show ?thesis by blast
qed

text \<open>
  C5 as stated fails: a row created with the client time 1700000000000 (milliseconds)
  normalises to 1700000000, inside the default bounds, and the listing leaves it out.
\<close>

theorem list_visitors_normalized_counterexample:
  "checkin_time (last (snd (check_in env0 (req0\<lparr>body_checkin_time := JNum 1700000000000\<rparr>) [row1])))
     = Fin 1700000000000
   \<and> normalize_checkin (\<lambda>s. None) (JNum 1700000000000) = JNum 1700000000
   \<and> (0::int) \<le> 1700000000 \<and> 1700000000 \<le> epoch_seconds (now_ms env1)
   \<and> list_visitors env1 (Some ''Bearer good'') None None ''http://h''
        (snd (check_in env0 (req0\<lparr>body_checkin_time := JNum 1700000000000\<rparr>) [row1]))
      = Inr [(row1, None)]"
proof -
  let ?R = "\<lparr>vid = ''id-2'', name = JStr ''Alice'', phone = JStr ''555-1111'', address = JStr [],
            purpose = JStr [], company = JStr [], personToMeet = JStr [], photo = [],
            checkin_time = Fin 1700000000000, checkout_time = None, created_by = JNull\<rparr>"
  have "\<bar>1700000000000 :: int\<bar> < 2 ^ 53" by simp
  then have p: "parseInt env0 (show_int 1700000000000) = Some (Fin 1700000000000)"
    by (rule parseInt_show_int)
  have c: "checkin_of env0 (JNum 1700000000000) = Some (Fin 1700000000000)"
    using p by (simp add: checkin_of_def)
  have st: "snd (check_in env0 (req0\<lparr>body_checkin_time := JNum 1700000000000\<rparr>) [row1]) = [row1, ?R]"
    using check_in_req0 [of "JNum 1700000000000"] c by simp
  have n: "normalize_checkin (\<lambda>s. None) (JNum 1700000000000) = JNum 1700000000"
    by (simp add: normalize_checkin_def js_or_def)
  have lo: "parseInt env1 (query_or None ''0'') = Some (Fin 0)" by (simp add: query_or_def parseInt_zero)
  have "\<bar>1700000600 :: int\<bar> < 2 ^ 53" by simp
  then have "parseInt env1 (show_int 1700000600) = Some (Fin 1700000600)" by (rule parseInt_show_int)
  then have hi: "parseInt env1 (query_or None (show_int (epoch_seconds (now_ms env1)))) = Some (Fin 1700000600)"
    by (simp add: query_or_def now_env1)
  have sel: "select_between (Some (Fin 0)) (Some (Fin 1700000600)) [row1, ?R] = [row1]"
    by (simp add: select_between_def between_def row1_def)
  have ph: "listed_photo ''http://h'' row1 = None" by (simp add: listed_photo_def row1_def)
  have l: "list_visitors env1 (Some ''Bearer good'') None None ''http://h'' [row1, ?R] = Inr [(row1, None)]"
    by (simp add: list_visitors_def auth_good1 lo hi Let_def sel ph)
  show ?thesis unfolding st using n l now_env1 by simp
qed

end
